theory Spec2Isabelle
  imports Main "HOL-Library.Sublist"
begin

section \<open>The CLI's result and output types (cli/src/output.ts)\<close>

text \<open>
  JavaScript strings are modelled as \<^typ>\<open>string\<close>, counters and indices (JavaScript
  numbers that only ever hold small non-negative integers) as \<^typ>\<open>nat\<close>, clock
  readings in milliseconds as \<^typ>\<open>int\<close>. An optional property (\<^verbatim>\<open>partOne?\<close>) is an
  \<^typ>\<open>'a option\<close>, \<^verbatim>\<open>undefined\<close> being \<^const>\<open>None\<close>.
\<close>

datatype OutputMode = Text | Json | Jsonl

record ConsoleEntry =
  timestamp_ms :: int
  message :: string

record TestCaseResult =
  expected :: string
  actual :: string
  hasPassed :: bool

record TestCase =
  partOne :: "TestCaseResult option"
  partTwo :: "TestCaseResult option"
  slow :: bool
  skipped :: bool

record JsonTestPartResult =
  part_passed :: bool
  part_expected :: string
  part_actual :: string

datatype TestStatus = Complete | Skipped

record JsonTestCase =
  index :: nat
  json_slow :: bool
  status :: TestStatus
  part_one :: "JsonTestPartResult option"
  part_two :: "JsonTestPartResult option"

record TestSummary =
  sum_total :: nat
  sum_passed :: nat
  sum_failed :: nat
  sum_skipped :: nat

record JsonTestOutput =
  success :: bool
  summary :: TestSummary
  tests :: "JsonTestCase list"
  console :: "ConsoleEntry list"

text \<open>
  The three counters \<^verbatim>\<open>passed\<close>, \<^verbatim>\<open>failed\<close>, \<^verbatim>\<open>skipped\<close> that the callback of
  \<^verbatim>\<open>testCases.map\<close> increments as a side effect.
\<close>

record Counters =
  n_passed :: nat
  n_failed :: nat
  n_skipped :: nat

definition zero_counters :: Counters where
  "zero_counters = \<lparr>n_passed = 0, n_failed = 0, n_skipped = 0\<rparr>"

text \<open>\<^verbatim>\<open>tc.partOne === undefined || tc.partOne.hasPassed\<close>\<close>

definition partPassed :: "TestCaseResult option \<Rightarrow> bool" where
  "partPassed p = (case p of None \<Rightarrow> True | Some r \<Rightarrow> hasPassed r)"

definition allPassed :: "TestCase \<Rightarrow> bool" where
  "allPassed tc = (partPassed (partOne tc) \<and> partPassed (partTwo tc))"

text \<open>\<^verbatim>\<open>if (hasPartOne && tc.partOne) testCase.part_one = {passed, expected, actual}\<close>\<close>

definition jsonPart :: "bool \<Rightarrow> TestCaseResult option \<Rightarrow> JsonTestPartResult option" where
  "jsonPart has p =
     (case p of
        None \<Rightarrow> None
      | Some r \<Rightarrow>
          if has
          then Some \<lparr>part_passed = hasPassed r, part_expected = expected r, part_actual = actual r\<rparr>
          else None)"

text \<open>
  The body of the callback \<^verbatim>\<open>(tc, i) => ...\<close> of \<^verbatim>\<open>formatTestJson\<close>: it returns the JSON
  test case and updates the counters. \<open>i\<close> is the zero-based position.
\<close>

definition formatTestCase ::
  "bool \<Rightarrow> bool \<Rightarrow> Counters \<Rightarrow> nat \<Rightarrow> TestCase \<Rightarrow> Counters \<times> JsonTestCase" where
  "formatTestCase hasPartOne hasPartTwo c i tc =
     (if skipped tc
      then (c\<lparr>n_skipped := n_skipped c + 1\<rparr>,
            \<lparr>index = i + 1, json_slow = slow tc, status = Skipped,
             part_one = None, part_two = None\<rparr>)
      else
        ((if allPassed tc then c\<lparr>n_passed := n_passed c + 1\<rparr>
          else c\<lparr>n_failed := n_failed c + 1\<rparr>),
         \<lparr>index = i + 1, json_slow = slow tc, status = Complete,
          part_one = jsonPart hasPartOne (partOne tc),
          part_two = jsonPart hasPartTwo (partTwo tc)\<rparr>))"

text \<open>\<^verbatim>\<open>testCases.map(callback)\<close>, left to right, threading the counters.\<close>

fun formatTestCases ::
  "bool \<Rightarrow> bool \<Rightarrow> Counters \<Rightarrow> nat \<Rightarrow> TestCase list \<Rightarrow> Counters \<times> JsonTestCase list" where
  "formatTestCases hasPartOne hasPartTwo c i [] = (c, [])"
| "formatTestCases hasPartOne hasPartTwo c i (tc # tcs) =
     (case formatTestCase hasPartOne hasPartTwo c i tc of
        (c', j) \<Rightarrow>
          (case formatTestCases hasPartOne hasPartTwo c' (i + 1) tcs of
             (c'', js) \<Rightarrow> (c'', j # js)))"

definition formatTestJson ::
  "TestCase list \<Rightarrow> bool \<Rightarrow> bool \<Rightarrow> ConsoleEntry list \<Rightarrow> JsonTestOutput" where
  "formatTestJson testCases hasPartOne hasPartTwo con =
     (case formatTestCases hasPartOne hasPartTwo zero_counters 0 testCases of
        (c, js) \<Rightarrow>
          \<lparr>success = (n_failed c = 0),
           summary = \<lparr>sum_total = length testCases, sum_passed = n_passed c,
                      sum_failed = n_failed c, sum_skipped = n_skipped c\<rparr>,
           tests = js,
           console = con\<rparr>)"

section \<open>Test mode of the CLI (cli/src/index.ts)\<close>

text \<open>
  What \<^verbatim>\<open>runTests\<close> hands to the CLI is either a list of test cases or a thrown error,
  which the surrounding \<^verbatim>\<open>try/catch\<close> turns into exit code 2.
\<close>

record ErrorInfo =
  err_message :: string
  line :: nat
  column :: nat

text \<open>\<^verbatim>\<open>(tc.partOne && !tc.partOne.hasPassed)\<close>\<close>

definition partFailed :: "TestCaseResult option \<Rightarrow> bool" where
  "partFailed p = (case p of None \<Rightarrow> False | Some r \<Rightarrow> \<not> hasPassed r)"

text \<open>
  Text output. The lines that \<^verbatim>\<open>console.log\<close> prints are kept as events (the escape
  sequences that colour them are left out); \<open>textExitCode\<close> is the variable \<^verbatim>\<open>exitCode\<close>.
\<close>

datatype Marker = MarkSkipped | MarkSlow | MarkNone

datatype TextLine =
    Blank
  | Testcase nat Marker
  | NoExpectations
  | PartOk nat string
  | PartFailed nat string string

record TextRun =
  printed :: "TextLine list"
  textExitCode :: nat

definition logLine :: "TextLine \<Rightarrow> TextRun \<Rightarrow> TextRun" where
  "logLine l st = st\<lparr>printed := printed st @ [l]\<rparr>"

definition textPart :: "nat \<Rightarrow> TestCaseResult option \<Rightarrow> TextRun \<Rightarrow> TextRun" where
  "textPart n p st =
     (case p of
        None \<Rightarrow> st
      | Some r \<Rightarrow>
          if hasPassed r then logLine (PartOk n (actual r)) st
          else (logLine (PartFailed n (actual r) (expected r)) st)\<lparr>textExitCode := 3\<rparr>)"

text \<open>One iteration of \<^verbatim>\<open>for (const [idx, testCase] of Object.entries(testCases))\<close>.\<close>

definition textTestCase :: "nat \<Rightarrow> TestCase \<Rightarrow> TextRun \<Rightarrow> TextRun" where
  "textTestCase idx testCase st =
     (let st1 = (if idx > 0 then logLine Blank st else st) in
      if skipped testCase then logLine (Testcase (idx + 1) MarkSkipped) st1
      else
        let st2 = logLine (Testcase (idx + 1) (if slow testCase then MarkSlow else MarkNone)) st1 in
        if partOne testCase = None \<and> partTwo testCase = None then logLine NoExpectations st2
        else textPart 2 (partTwo testCase) (textPart 1 (partOne testCase) st2))"

fun textTestLoop :: "nat \<Rightarrow> TestCase list \<Rightarrow> TextRun \<Rightarrow> TextRun" where
  "textTestLoop idx [] st = st"
| "textTestLoop idx (tc # tcs) st = textTestLoop (idx + 1) tcs (textTestCase idx tc st)"

text \<open>JSON output: \<^verbatim>\<open>testCases.some(tc => !tc.skipped && (... || ...))\<close>.\<close>

definition hasFailures :: "TestCase list \<Rightarrow> bool" where
  "hasFailures testCases =
     list_ex (\<lambda>tc. \<not> skipped tc \<and> (partFailed (partOne tc) \<or> partFailed (partTwo tc))) testCases"

text \<open>
  JSONL output: the loop over the test cases keeps the same three counters as
  \<^verbatim>\<open>formatTestJson\<close> (the patches it writes are left out).
\<close>

definition jsonlTestCase :: "TestCase \<Rightarrow> Counters \<Rightarrow> Counters" where
  "jsonlTestCase tc c =
     (if skipped tc then c\<lparr>n_skipped := n_skipped c + 1\<rparr>
      else if allPassed tc then c\<lparr>n_passed := n_passed c + 1\<rparr>
      else c\<lparr>n_failed := n_failed c + 1\<rparr>)"

fun jsonlTestLoop :: "TestCase list \<Rightarrow> Counters \<Rightarrow> Counters" where
  "jsonlTestLoop [] c = c"
| "jsonlTestLoop (tc # tcs) c = jsonlTestLoop tcs (jsonlTestCase tc c)"

text \<open>The argument of \<^verbatim>\<open>process.exit\<close> in test mode, for each output mode.\<close>

definition testModeExit :: "OutputMode \<Rightarrow> ErrorInfo + TestCase list \<Rightarrow> nat" where
  "testModeExit mode r =
     (case r of
        Inl err \<Rightarrow> 2
      | Inr testCases \<Rightarrow>
          (case mode of
             Text \<Rightarrow> textExitCode (textTestLoop 0 testCases \<lparr>printed = [], textExitCode = 0\<rparr>)
           | Json \<Rightarrow> if hasFailures testCases then 3 else 0
           | Jsonl \<Rightarrow> if n_failed (jsonlTestLoop testCases zero_counters) = 0 then 0 else 3))"

section \<open>Error output (cli/src/output.ts)\<close>

record ErrorLocation =
  loc_line :: nat
  loc_column :: nat

record JsonErrorOutput =
  out_type :: string
  out_message :: string
  location :: ErrorLocation
  stack :: "string list"

definition formatErrorJson :: "ErrorInfo \<Rightarrow> JsonErrorOutput" where
  "formatErrorJson error =
     \<lparr>out_type = ''error'',
      out_message = err_message error,
      location = \<lparr>loc_line = line error + 1, loc_column = column error + 1\<rparr>,
      stack = []\<rparr>"

text \<open>
  The error object that JSONL mode adds under \<^verbatim>\<open>/error\<close> in the \<^verbatim>\<open>catch\<close> block of
  cli/src/index.ts; it is built in place, with the same conversion.
\<close>

record JsonlError =
  jl_message :: string
  jl_location :: ErrorLocation
  jl_stack :: "string list"

definition jsonlErrorOutput :: "ErrorInfo \<Rightarrow> JsonlError" where
  "jsonlErrorOutput err =
     \<lparr>jl_message = err_message err,
      jl_location = \<lparr>loc_line = line err + 1, loc_column = column err + 1\<rparr>,
      jl_stack = []\<rparr>"

section \<open>Console output and capture (cli/src/io.ts)\<close>

text \<open>
  The module state of \<^verbatim>\<open>io.ts\<close>: \<^verbatim>\<open>consoleBuffer\<close> (\<^verbatim>\<open>null\<close> is \<^const>\<open>None\<close>) and
  \<^verbatim>\<open>captureStartTime\<close>, together with the lines written to standard output so far.
  \<^verbatim>\<open>Date.now()\<close> reads the system clock; the reading a call obtains is passed to it as
  the argument \<open>now\<close>.
\<close>

record IOState =
  consoleBuffer :: "ConsoleEntry list option"
  captureStartTime :: int
  stdout :: "string list"

definition initialIOState :: IOState where
  "initialIOState = \<lparr>consoleBuffer = None, captureStartTime = 0, stdout = []\<rparr>"

definition enableConsoleCapture :: "int \<Rightarrow> IOState \<Rightarrow> IOState" where
  "enableConsoleCapture now s = s\<lparr>captureStartTime := now, consoleBuffer := Some []\<rparr>"

definition disableConsoleCapture :: "IOState \<Rightarrow> ConsoleEntry list \<times> IOState" where
  "disableConsoleCapture s =
     ((case consoleBuffer s of None \<Rightarrow> [] | Some entries \<Rightarrow> entries),
      s\<lparr>consoleBuffer := None\<rparr>)"

text \<open>\<^verbatim>\<open>Array.prototype.join\<close> on an array of strings.\<close>

fun join :: "string \<Rightarrow> string list \<Rightarrow> string" where
  "join sep [] = []"
| "join sep [x] = x"
| "join sep (x # y # ys) = x @ sep @ join sep (y # ys)"

definition output_io :: "int \<Rightarrow> string list \<Rightarrow> IOState \<Rightarrow> IOState" where
  "output_io now args s =
     (if length args = 0 then s
      else
        let msg = join '' '' args in
        case consoleBuffer s of
          Some entries \<Rightarrow>
            s\<lparr>consoleBuffer :=
                Some (entries @ [\<lparr>timestamp_ms = now - captureStartTime s, message = msg\<rparr>])\<rparr>
        | None \<Rightarrow> s\<lparr>stdout := stdout s @ [msg]\<rparr>)"

text \<open>
  A captured run, as the CLI performs it in JSON and JSONL mode: \<^verbatim>\<open>enableConsoleCapture()\<close>,
  then the \<^verbatim>\<open>output\<close> calls of the evaluation in the order they are made, each with the
  clock reading it obtains, then \<^verbatim>\<open>disableConsoleCapture()\<close>.
\<close>

fun outputs :: "(int \<times> string list) list \<Rightarrow> IOState \<Rightarrow> IOState" where
  "outputs [] s = s"
| "outputs ((now, args) # calls) s = outputs calls (output_io now args s)"

definition capturedRun :: "int \<Rightarrow> (int \<times> string list) list \<Rightarrow> IOState \<Rightarrow> ConsoleEntry list" where
  "capturedRun start calls s = fst (disableConsoleCapture (outputs calls (enableConsoleCapture start s)))"

section \<open>Reading input (cli/src/io.ts)\<close>
















section \<open>Run mode of the CLI (cli/src/output.ts, cli/src/index.ts)\<close>

text \<open>\<^verbatim>\<open>String.prototype.includes\<close>: does \<open>pat\<close> occur in \<open>s\<close> at some position?\<close>

fun includes_str :: "string \<Rightarrow> string \<Rightarrow> bool" where
  "includes_str [] pat = (pat = [])"
| "includes_str (c # cs) pat = (prefix pat (c # cs) \<or> includes_str cs pat)"

record SolutionParts =
  hasPartOne :: bool
  hasPartTwo :: bool

definition isSolutionSource :: "string \<Rightarrow> SolutionParts" where
  "isSolutionSource source =
     \<lparr>hasPartOne = includes_str source ''part_one:'', hasPartTwo = includes_str source ''part_two:''\<rparr>"

text \<open>\<^verbatim>\<open>const isSolution = hasPartOne || hasPartTwo\<close>\<close>

definition isSolution :: "string \<Rightarrow> bool" where
  "isSolution source =
     (hasPartOne (isSolutionSource source) \<or> hasPartTwo (isSolutionSource source))"

text \<open>
  What the runner's \<^verbatim>\<open>run\<close> returns: a script result (it has the property \<^verbatim>\<open>value\<close>) or
  a solution result with its optional parts.
\<close>

record ResultValue =
  rv_value :: string
  rv_duration :: int

datatype RunResult =
    ScriptResult string int
  | SolutionResult "ResultValue option" "ResultValue option"

record JsonPartResult =
  jp_value :: string
  jp_duration_ms :: int

datatype JsonRunOutput =
    JsonScriptOutput string int "ConsoleEntry list"
  | JsonSolutionOutput "JsonPartResult option" "JsonPartResult option" "ConsoleEntry list"

definition jsonPartResult :: "ResultValue option \<Rightarrow> JsonPartResult option" where
  "jsonPartResult p =
     (case p of
        None \<Rightarrow> None
      | Some r \<Rightarrow> Some \<lparr>jp_value = rv_value r, jp_duration_ms = rv_duration r\<rparr>)"

definition formatRunJson :: "RunResult \<Rightarrow> ConsoleEntry list \<Rightarrow> JsonRunOutput" where
  "formatRunJson result con =
     (case result of
        ScriptResult v d \<Rightarrow> JsonScriptOutput v d con
      | SolutionResult p1 p2 \<Rightarrow> JsonSolutionOutput (jsonPartResult p1) (jsonPartResult p2) con)"

text \<open>
  The initial JSONL document, written before the source is run:
  \<^verbatim>\<open>createSolutionInitial(hasPartOne, hasPartTwo)\<close> (with a pending part for each flag) when
  \<^verbatim>\<open>isSolution\<close>, \<^verbatim>\<open>createScriptInitial()\<close> otherwise.
\<close>

datatype JsonlInitial = JsonlSolutionInitial bool bool | JsonlScriptInitial

definition jsonlRunInitial :: "string \<Rightarrow> JsonlInitial" where
  "jsonlRunInitial source =
     (if isSolution source
      then JsonlSolutionInitial (hasPartOne (isSolutionSource source))
             (hasPartTwo (isSolutionSource source))
      else JsonlScriptInitial)"

text \<open>
  Which of the two outputs a run produces. Text mode prints the value when the result
  has the property \<^verbatim>\<open>value\<close> and the parts otherwise; JSON mode prints what
  \<^verbatim>\<open>formatRunJson\<close> returns; JSONL mode writes the initial document chosen from the
  source text, and completes it along the same branch.
\<close>

datatype OutputKind = ScriptOutput | SolutionOutput

definition runModeKind :: "OutputMode \<Rightarrow> string \<Rightarrow> RunResult \<Rightarrow> OutputKind" where
  "runModeKind mode source result =
     (case mode of
        Text \<Rightarrow>
          (case result of ScriptResult v d \<Rightarrow> ScriptOutput | SolutionResult p1 p2 \<Rightarrow> SolutionOutput)
      | Json \<Rightarrow>
          (case formatRunJson result [] of
             JsonScriptOutput v d con \<Rightarrow> ScriptOutput
           | JsonSolutionOutput p1 p2 con \<Rightarrow> SolutionOutput)
      | Jsonl \<Rightarrow>
          (case jsonlRunInitial source of
             JsonlSolutionInitial h1 h2 \<Rightarrow> SolutionOutput
           | JsonlScriptInitial \<Rightarrow> ScriptOutput))"

text \<open>
  The lines a run writes in JSONL mode (cli/src/index.ts). A line is the initial document
  or one call of \<^verbatim>\<open>writePatches\<close>; a patch is \<^verbatim>\<open>replacePatch(path, value)\<close> or
  \<^verbatim>\<open>addPatch(path, value)\<close>. Before the source is run the initial document chosen by
  \<^verbatim>\<open>isSolution\<close> is written and marked running, with each part the flags announce. After
  the run the captured console entries are added; then, when \<^verbatim>\<open>isSolution\<close>, each part
  that the result holds and the flag announces is completed and the document marked
  complete, and otherwise the value is written if the result has the property
  \<^verbatim>\<open>value\<close>.
\<close>

datatype JsonValue = JString string | JNumber int | JConsoleEntry ConsoleEntry

datatype JsonPatch = Replace string JsonValue | Add string JsonValue

datatype JsonlLine = InitialLine JsonlInitial | PatchLine "JsonPatch list"

definition jsonlRunBefore :: "string \<Rightarrow> JsonlLine list" where
  "jsonlRunBefore source =
     (if isSolution source
      then
        [InitialLine (jsonlRunInitial source),
         PatchLine [Replace ''/status'' (JString ''running'')]]
        @ (if hasPartOne (isSolutionSource source)
           then [PatchLine [Replace ''/part_one/status'' (JString ''running'')]] else [])
        @ (if hasPartTwo (isSolutionSource source)
           then [PatchLine [Replace ''/part_two/status'' (JString ''running'')]] else [])
      else
        [InitialLine (jsonlRunInitial source),
         PatchLine [Replace ''/status'' (JString ''running'')]])"

text \<open>\<^verbatim>\<open>'partOne' in result && result.partOne && hasPartOne\<close>, and the patches written then.\<close>

definition jsonlPartLines :: "string \<Rightarrow> bool \<Rightarrow> ResultValue option \<Rightarrow> JsonlLine list" where
  "jsonlPartLines part has p =
     (case p of
        None \<Rightarrow> []
      | Some r \<Rightarrow>
          if has
          then [PatchLine
                  [Replace (''/'' @ part @ ''/status'') (JString ''complete''),
                   Replace (''/'' @ part @ ''/value'') (JString (rv_value r)),
                   Replace (''/'' @ part @ ''/duration_ms'') (JNumber (rv_duration r))]]
          else [])"

definition jsonlRunAfter :: "string \<Rightarrow> RunResult \<Rightarrow> ConsoleEntry list \<Rightarrow> JsonlLine list" where
  "jsonlRunAfter source result consoleEntries =
     map (\<lambda>entry. PatchLine [Add ''/console/-'' (JConsoleEntry entry)]) consoleEntries
     @ (if isSolution source
        then
          (case result of
             ScriptResult v d \<Rightarrow> []
           | SolutionResult p1 p2 \<Rightarrow>
               jsonlPartLines ''part_one'' (hasPartOne (isSolutionSource source)) p1
               @ jsonlPartLines ''part_two'' (hasPartTwo (isSolutionSource source)) p2)
          @ [PatchLine [Replace ''/status'' (JString ''complete'')]]
        else
          (case result of
             ScriptResult v d \<Rightarrow>
               [PatchLine
                  [Replace ''/status'' (JString ''complete''),
                   Replace ''/value'' (JString v),
                   Replace ''/duration_ms'' (JNumber d)]]
           | SolutionResult p1 p2 \<Rightarrow> []))"

definition jsonlRunLines :: "string \<Rightarrow> RunResult \<Rightarrow> ConsoleEntry list \<Rightarrow> JsonlLine list" where
  "jsonlRunLines source result consoleEntries =
     jsonlRunBefore source @ jsonlRunAfter source result consoleEntries"

text \<open>
  Modelled from the spec: the lexer and the parser are not under src/. The spec fixes
  that a line comment, \<^verbatim>\<open>//\<close> to end-of-line, yields no token, and that a program is the
  ordered sequence of the statements parsed from the tokens. Only that much is modelled:
  a source that is a single line comment has no token, so its top-level statement list
  is empty and declares no section; every other source is outside this fragment
  (\<^const>\<open>None\<close>).
\<close>

definition isLineComment :: "string \<Rightarrow> bool" where
  "isLineComment source = (prefix ''//'' source \<and> CHR 0x0A \<notin> set source)"

definition topLevelSectionNames :: "string \<Rightarrow> string list option" where
  "topLevelSectionNames source = (if isLineComment source then Some [] else None)"

section \<open>The test runner\<close>

text \<open>
  Modelled from the spec: the solution runner (lang/src/runner/index.ts, \<^verbatim>\<open>runTests\<close>) is
  not under src/; only its test file is. In the spec's words: for each \<^verbatim>\<open>test\<close> section,
  evaluate its body to obtain the test's input and the optional expected values of
  \<^verbatim>\<open>part_one\<close> and \<^verbatim>\<open>part_two\<close>; then evaluate the enclosing \<^verbatim>\<open>part_one\<close>/\<^verbatim>\<open>part_two\<close>
  sections with that input and compare the inspected result with the inspected
  expectation. A test is reported with the flags \<open>slow\<close> (was annotated \<^verbatim>\<open>@slow\<close>) and
  \<open>skipped\<close> (slow and the caller did not request slow). When skipped, no evaluation is
  performed for that test.

  The parsed source is given by its \<^verbatim>\<open>test\<close> sections in declaration order and by the
  evaluator of the solution: \<open>evalTestBody\<close> yields the input and the inspected
  expectations of a test body, \<open>solvePartOne\<close> and \<open>solvePartTwo\<close> are the enclosing
  sections, if declared, as functions from the input to the inspected result. Evaluation
  is taken to succeed. Beside the results the model returns the evaluations it
  performed, each tagged with the position of the test it was performed for.
\<close>

record 'b TestSection =
  annotatedSlow :: bool
  testBody :: 'b

datatype Evaluation = EvalTestBody nat | EvalPartOne nat | EvalPartTwo nat

fun evaluatedFor :: "Evaluation \<Rightarrow> nat" where
  "evaluatedFor (EvalTestBody i) = i"
| "evaluatedFor (EvalPartOne i) = i"
| "evaluatedFor (EvalPartTwo i) = i"

record ('b, 'i) Solution =
  evalTestBody :: "'b \<Rightarrow> 'i \<times> string option \<times> string option"
  solvePartOne :: "('i \<Rightarrow> string) option"
  solvePartTwo :: "('i \<Rightarrow> string) option"

definition comparePart :: "('i \<Rightarrow> string) option \<Rightarrow> 'i \<Rightarrow> string option \<Rightarrow> TestCaseResult option" where
  "comparePart solve inp expectation =
     (case solve of
        None \<Rightarrow> None
      | Some f \<Rightarrow>
          (case expectation of
             None \<Rightarrow> None
           | Some e \<Rightarrow> Some \<lparr>expected = e, actual = f inp, hasPassed = (f inp = e)\<rparr>))"

definition runTest ::
  "('b, 'i) Solution \<Rightarrow> bool \<Rightarrow> nat \<Rightarrow> 'b TestSection \<Rightarrow> TestCase \<times> Evaluation list" where
  "runTest sol includeSlow i sec =
     (if annotatedSlow sec \<and> \<not> includeSlow
      then (\<lparr>partOne = None, partTwo = None, slow = annotatedSlow sec, skipped = True\<rparr>, [])
      else
        (case evalTestBody sol (testBody sec) of
           (inp, e1, e2) \<Rightarrow>
             let p1 = comparePart (solvePartOne sol) inp e1;
                 p2 = comparePart (solvePartTwo sol) inp e2
             in (\<lparr>partOne = p1, partTwo = p2, slow = annotatedSlow sec, skipped = False\<rparr>,
                 [EvalTestBody i]
                   @ (if p1 = None then [] else [EvalPartOne i])
                   @ (if p2 = None then [] else [EvalPartTwo i]))))"

fun runTestsFrom ::
  "('b, 'i) Solution \<Rightarrow> bool \<Rightarrow> nat \<Rightarrow> 'b TestSection list \<Rightarrow> TestCase list \<times> Evaluation list" where
  "runTestsFrom sol includeSlow i [] = ([], [])"
| "runTestsFrom sol includeSlow i (sec # secs) =
     (case runTest sol includeSlow i sec of
        (tc, evs) \<Rightarrow>
          (case runTestsFrom sol includeSlow (i + 1) secs of
             (tcs, evs') \<Rightarrow> (tc # tcs, evs @ evs')))"

definition runTests ::
  "('b, 'i) Solution \<Rightarrow> 'b TestSection list \<Rightarrow> bool \<Rightarrow> TestCase list \<times> Evaluation list" where
  "runTests sol sections includeSlow = runTestsFrom sol includeSlow 0 sections"

text \<open>
  A sample solution for evaluating \<^const>\<open>runTests\<close>, after the sources of the runner's
  test file: \<^verbatim>\<open>part_one: { 1 }\<close> with tests \<^verbatim>\<open>test: { part_one: 1 }\<close>. The body of a test
  stands for itself as the input; there is no second part.
\<close>

definition sampleSolution :: "(string, string) Solution" where
  "sampleSolution =
     \<lparr>evalTestBody = (\<lambda>body. (body, Some ''1'', None)),
      solvePartOne = Some (\<lambda>inp. ''1''),
      solvePartTwo = None\<rparr>"

section \<open>Properties of the JSON test summary\<close>

lemma formatTestCases_counters:
  "fst (formatTestCases h1 h2 c i tcs) =
     \<lparr>n_passed = n_passed c + length (filter (\<lambda>tc. \<not> skipped tc \<and> allPassed tc) tcs),
      n_failed = n_failed c + length (filter (\<lambda>tc. \<not> skipped tc \<and> \<not> allPassed tc) tcs),
      n_skipped = n_skipped c + length (filter skipped tcs)\<rparr>"
proof (induction tcs arbitrary: c i)
  case Nil
  show ?case by simp
next
  case (Cons tc tcs)
  obtain c' j where step: "formatTestCase h1 h2 c i tc = (c', j)"
    by (cases "formatTestCase h1 h2 c i tc")
  obtain c'' js where rest: "formatTestCases h1 h2 c' (i + 1) tcs = (c'', js)"
    by (cases "formatTestCases h1 h2 c' (i + 1) tcs")
  have c': "c' = (if skipped tc then c\<lparr>n_skipped := n_skipped c + 1\<rparr>
                  else if allPassed tc then c\<lparr>n_passed := n_passed c + 1\<rparr>
                  else c\<lparr>n_failed := n_failed c + 1\<rparr>)"
    using step by (auto simp: formatTestCase_def split: if_splits)
  have "fst (formatTestCases h1 h2 c i (tc # tcs)) = c''"
    using step rest by simp
  also have "c'' = fst (formatTestCases h1 h2 c' (i + 1) tcs)"
    using rest by simp
  finally show ?case
    by (simp add: Cons.IH c')
qed

lemma formatTestJson_counts:
  "sum_total (summary (formatTestJson tcs h1 h2 con)) = length tcs"
  "sum_skipped (summary (formatTestJson tcs h1 h2 con)) = length (filter skipped tcs)"
  "sum_passed (summary (formatTestJson tcs h1 h2 con)) =
     length (filter (\<lambda>tc. \<not> skipped tc \<and> allPassed tc) tcs)"
  "sum_failed (summary (formatTestJson tcs h1 h2 con)) =
     length (filter (\<lambda>tc. \<not> skipped tc \<and> \<not> allPassed tc) tcs)"
  "success (formatTestJson tcs h1 h2 con) =
     (length (filter (\<lambda>tc. \<not> skipped tc \<and> \<not> allPassed tc) tcs) = 0)"
proof -
  obtain c js where run: "formatTestCases h1 h2 zero_counters 0 tcs = (c, js)"
    by (cases "formatTestCases h1 h2 zero_counters 0 tcs")
  have c: "c = fst (formatTestCases h1 h2 zero_counters 0 tcs)"
    by (simp add: run)
  have cnt: "n_passed c = length (filter (\<lambda>tc. \<not> skipped tc \<and> allPassed tc) tcs)"
    "n_failed c = length (filter (\<lambda>tc. \<not> skipped tc \<and> \<not> allPassed tc) tcs)"
    "n_skipped c = length (filter skipped tcs)"
    unfolding c formatTestCases_counters by (simp_all add: zero_counters_def)
  show "sum_total (summary (formatTestJson tcs h1 h2 con)) = length tcs"
    by (simp add: formatTestJson_def run)
  show "sum_skipped (summary (formatTestJson tcs h1 h2 con)) = length (filter skipped tcs)"
    by (simp add: formatTestJson_def run cnt)
  show "sum_passed (summary (formatTestJson tcs h1 h2 con)) =
     length (filter (\<lambda>tc. \<not> skipped tc \<and> allPassed tc) tcs)"
    by (simp add: formatTestJson_def run cnt)
  show "sum_failed (summary (formatTestJson tcs h1 h2 con)) =
     length (filter (\<lambda>tc. \<not> skipped tc \<and> \<not> allPassed tc) tcs)"
    by (simp add: formatTestJson_def run cnt)
  show "success (formatTestJson tcs h1 h2 con) =
     (length (filter (\<lambda>tc. \<not> skipped tc \<and> \<not> allPassed tc) tcs) = 0)"
    by (simp add: formatTestJson_def run cnt)
qed

lemma filter_three_way:
  "length (filter (\<lambda>x. \<not> s x \<and> p x) xs) + length (filter (\<lambda>x. \<not> s x \<and> \<not> p x) xs)
     + length (filter s xs) = length xs"
  by (induction xs) auto

text \<open>
  C9. For every list of test-case results the summary of \<^verbatim>\<open>formatTestJson\<close> partitions
  the tests: \<open>total\<close> is the number of test cases, \<open>skipped\<close> counts the cases whose
  skipped flag is set, \<open>passed\<close> the other cases all of whose parts passed, \<open>failed\<close> the
  remaining ones, and the three buckets add up to \<open>total\<close>.
\<close>

theorem formatTestJson_summary_partition:
  "sum_total (summary (formatTestJson tcs h1 h2 con)) = length tcs \<and>
   sum_skipped (summary (formatTestJson tcs h1 h2 con)) = length (filter skipped tcs) \<and>
   sum_passed (summary (formatTestJson tcs h1 h2 con)) =
     length (filter (\<lambda>tc. \<not> skipped tc \<and> allPassed tc) tcs) \<and>
   sum_failed (summary (formatTestJson tcs h1 h2 con)) =
     length (filter (\<lambda>tc. \<not> skipped tc \<and> \<not> allPassed tc) tcs) \<and>
   sum_passed (summary (formatTestJson tcs h1 h2 con))
     + sum_failed (summary (formatTestJson tcs h1 h2 con))
     + sum_skipped (summary (formatTestJson tcs h1 h2 con))
     = sum_total (summary (formatTestJson tcs h1 h2 con))"
  using filter_three_way [of skipped allPassed tcs]
  by (simp add: formatTestJson_counts)

section \<open>Exit code of test mode\<close>

lemma partFailed_iff: "partFailed p = (\<not> partPassed p)"
  by (simp add: partFailed_def partPassed_def split: option.splits)

lemma not_allPassed_iff:
  "(\<not> allPassed tc) = (partFailed (partOne tc) \<or> partFailed (partTwo tc))"
  by (simp add: allPassed_def partFailed_iff)

lemma textPart_exit:
  "textExitCode (textPart n p st) = (if partFailed p then 3 else textExitCode st)"
  by (simp add: textPart_def partFailed_def logLine_def split: option.splits)

lemma textTestCase_exit:
  "textExitCode (textTestCase idx tc st) =
     (if \<not> skipped tc \<and> (partFailed (partOne tc) \<or> partFailed (partTwo tc)) then 3
      else textExitCode st)"
  by (simp add: textTestCase_def Let_def textPart_exit logLine_def partFailed_def)

lemma textTestLoop_exit:
  "textExitCode (textTestLoop idx tcs st) = (if hasFailures tcs then 3 else textExitCode st)"
proof (induction tcs arbitrary: idx st)
  case Nil
  show ?case by (simp add: hasFailures_def)
next
  case (Cons tc tcs)
  have "hasFailures (tc # tcs) =
          ((\<not> skipped tc \<and> (partFailed (partOne tc) \<or> partFailed (partTwo tc))) \<or> hasFailures tcs)"
    by (simp add: hasFailures_def)
  then show ?case
    by (auto simp: Cons.IH textTestCase_exit)
qed

lemma jsonlTestLoop_failed:
  "n_failed (jsonlTestLoop tcs c) =
     n_failed c + length (filter (\<lambda>tc. \<not> skipped tc \<and> \<not> allPassed tc) tcs)"
  by (induction tcs arbitrary: c) (simp_all add: jsonlTestCase_def)

lemma no_failed_iff:
  "(length (filter (\<lambda>tc. \<not> skipped tc \<and> \<not> allPassed tc) tcs) = 0) = (\<not> hasFailures tcs)"
  by (induction tcs) (auto simp: hasFailures_def not_allPassed_iff)

lemma hasFailures_iff:
  "hasFailures tcs =
     (\<exists>tc \<in> set tcs. \<not> skipped tc \<and> (partFailed (partOne tc) \<or> partFailed (partTwo tc)))"
  by (simp add: hasFailures_def list_ex_iff)

lemma testModeExit_hasFailures:
  "testModeExit mode (Inr tcs) = (if hasFailures tcs then 3 else 0)"
proof (cases mode)
  case Text
  then show ?thesis by (simp add: testModeExit_def textTestLoop_exit)
next
  case Json
  then show ?thesis by (simp add: testModeExit_def)
next
  case Jsonl
  have "(n_failed (jsonlTestLoop tcs zero_counters) = 0) = (\<not> hasFailures tcs)"
    by (simp add: jsonlTestLoop_failed zero_counters_def no_failed_iff [symmetric])
  with Jsonl show ?thesis by (simp add: testModeExit_def)
qed

text \<open>
  C2. When \<^verbatim>\<open>runTests\<close> returns its test cases, the CLI exits in test mode, whatever the
  output mode, with code 3 iff at least one test case that is not skipped has a part
  whose comparison failed, and with code 0 otherwise, so in particular when every test
  case is skipped or has all its parts passed. The \<open>success\<close> field of the JSON test
  output is true iff its \<open>failed\<close> count is 0, and iff the exit code is not 3.
\<close>

theorem test_mode_exit_code:
  "testModeExit mode (Inr tcs) =
     (if \<exists>tc \<in> set tcs. \<not> skipped tc \<and> (partFailed (partOne tc) \<or> partFailed (partTwo tc))
      then 3 else 0) \<and>
   ((\<forall>tc \<in> set tcs. skipped tc \<or> allPassed tc) \<longrightarrow> testModeExit mode (Inr tcs) = 0) \<and>
   success (formatTestJson tcs h1 h2 con) =
     (sum_failed (summary (formatTestJson tcs h1 h2 con)) = 0) \<and>
   success (formatTestJson tcs h1 h2 con) = (testModeExit mode (Inr tcs) \<noteq> 3)"
proof -
  have e: "testModeExit mode (Inr tcs) = (if hasFailures tcs then 3 else 0)"
    by (rule testModeExit_hasFailures)
  have a: "(\<forall>tc \<in> set tcs. skipped tc \<or> allPassed tc) \<Longrightarrow> \<not> hasFailures tcs"
    unfolding hasFailures_iff using not_allPassed_iff by blast
  have s: "success (formatTestJson tcs h1 h2 con) = (\<not> hasFailures tcs)"
    unfolding formatTestJson_counts(5) by (rule no_failed_iff)
  have f: "(sum_failed (summary (formatTestJson tcs h1 h2 con)) = 0) = (\<not> hasFailures tcs)"
    unfolding formatTestJson_counts(4) by (rule no_failed_iff)
  show ?thesis
    using a by (simp add: e s f hasFailures_iff [symmetric])
qed

theorem test_mode_exit_code_witness:
  "testModeExit Json
     (Inr [\<lparr>partOne = Some \<lparr>expected = ''3'', actual = ''3'', hasPassed = True\<rparr>,
            partTwo = None, slow = False, skipped = False\<rparr>,
           \<lparr>partOne = Some \<lparr>expected = ''999'', actual = ''5'', hasPassed = False\<rparr>,
            partTwo = None, slow = False, skipped = False\<rparr>]) = 3 \<and>
   \<not> success (formatTestJson
     [\<lparr>partOne = Some \<lparr>expected = ''3'', actual = ''3'', hasPassed = True\<rparr>,
       partTwo = None, slow = False, skipped = False\<rparr>,
      \<lparr>partOne = Some \<lparr>expected = ''999'', actual = ''5'', hasPassed = False\<rparr>,
       partTwo = None, slow = False, skipped = False\<rparr>] True False []) \<and>
   testModeExit Text
     (Inr [\<lparr>partOne = Some \<lparr>expected = ''3'', actual = ''3'', hasPassed = True\<rparr>,
            partTwo = None, slow = False, skipped = False\<rparr>,
           \<lparr>partOne = None, partTwo = None, slow = True, skipped = True\<rparr>]) = 0"
proof -
  let ?pass = "\<lparr>partOne = Some \<lparr>expected = ''3'', actual = ''3'', hasPassed = True\<rparr>,
                partTwo = None, slow = False, skipped = False\<rparr>"
  let ?fail = "\<lparr>partOne = Some \<lparr>expected = ''999'', actual = ''5'', hasPassed = False\<rparr>,
                partTwo = None, slow = False, skipped = False\<rparr>"
  let ?skip = "\<lparr>partOne = None, partTwo = None, slow = True, skipped = True\<rparr>"
  note mixed = test_mode_exit_code [of Json "[?pass, ?fail]" True False "[]"]
  note clean = test_mode_exit_code [of Text "[?pass, ?skip]" True False "[]"]
  have e3: "testModeExit Json (Inr [?pass, ?fail]) = 3"
    using mixed [THEN conjunct1] by (simp add: partFailed_def)
  have "success (formatTestJson [?pass, ?fail] True False [])
          = (testModeExit Json (Inr [?pass, ?fail]) \<noteq> 3)"
    using mixed by blast
  then have ns: "\<not> success (formatTestJson [?pass, ?fail] True False [])"
    using e3 by simp
  have e0: "testModeExit Text (Inr [?pass, ?skip]) = 0"
    using clean [THEN conjunct1] by (simp add: partFailed_def)
  show ?thesis
    using e3 ns e0 by blast
qed

section \<open>Error output\<close>

text \<open>
  The JSON error output has type \<^verbatim>\<open>error\<close>, keeps the message of the error value and
  reports its line and its column plus one each; the error object of JSONL mode carries
  the same message and location.
\<close>

lemma formatErrorJson_location:
  "out_type (formatErrorJson e) = ''error'' \<and>
   out_message (formatErrorJson e) = err_message e \<and>
   loc_line (location (formatErrorJson e)) = line e + 1 \<and>
   loc_column (location (formatErrorJson e)) = column e + 1 \<and>
   jl_message (jsonlErrorOutput e) = err_message e \<and>
   jl_location (jsonlErrorOutput e) = location (formatErrorJson e)"
  by (simp add: formatErrorJson_def jsonlErrorOutput_def)

section \<open>Console output and capture\<close>

lemma outputs_uncaptured:
  "consoleBuffer s = None \<Longrightarrow>
   stdout (outputs calls s) = stdout s @ map (join '' '') (filter (\<lambda>args. args \<noteq> []) (map snd calls)) \<and>
   consoleBuffer (outputs calls s) = None"
proof (induction calls arbitrary: s)
  case Nil
  then show ?case by simp
next
  case (Cons call calls)
  obtain now args where call: "call = (now, args)" by (cases call)
  have b: "consoleBuffer (output_io now args s) = None"
    using Cons.prems by (simp add: output_io_def Let_def)
  have l: "stdout (output_io now args s) = stdout s @ (if args = [] then [] else [join '' '' args])"
    using Cons.prems by (simp add: output_io_def Let_def)
  show ?case
    using Cons.IH [OF b] by (simp add: call l)
qed

lemma outputs_captured_stdout:
  "consoleBuffer s \<noteq> None \<Longrightarrow>
   stdout (outputs calls s) = stdout s \<and> consoleBuffer (outputs calls s) \<noteq> None"
proof (induction calls arbitrary: s)
  case Nil
  then show ?case by simp
next
  case (Cons call calls)
  obtain now args where call: "call = (now, args)" by (cases call)
  have b: "consoleBuffer (output_io now args s) \<noteq> None"
    using Cons.prems by (auto simp: output_io_def Let_def)
  have l: "stdout (output_io now args s) = stdout s"
    using Cons.prems by (auto simp: output_io_def Let_def)
  show ?case
    using Cons.IH [OF b] by (simp add: call l)
qed

text \<open>
  C3. A call of the I/O handle's \<^verbatim>\<open>output\<close> with an empty argument list changes nothing:
  no line is printed and no console entry is captured. A call with a non-empty argument
  list prints exactly one line when capture is off, and appends exactly one entry to the
  capture buffer (printing nothing) when capture is on; the line, or the entry's message,
  is the arguments joined by single spaces. Over a sequence of calls with capture off,
  the lines printed are the joined arguments of the calls with a non-empty argument
  list, in order; with capture on, nothing is printed.
\<close>

theorem output_io_events:
  "output_io now [] s = s \<and>
   (args \<noteq> [] \<longrightarrow> consoleBuffer s = None \<longrightarrow>
      stdout (output_io now args s) = stdout s @ [join '' '' args] \<and>
      consoleBuffer (output_io now args s) = None) \<and>
   (args \<noteq> [] \<longrightarrow> consoleBuffer s = Some entries \<longrightarrow>
      stdout (output_io now args s) = stdout s \<and>
      (\<exists>e. consoleBuffer (output_io now args s) = Some (entries @ [e]) \<and>
           message e = join '' '' args)) \<and>
   (consoleBuffer s = None \<longrightarrow>
      stdout (outputs calls s)
        = stdout s @ map (join '' '') (filter (\<lambda>args. args \<noteq> []) (map snd calls)) \<and>
      consoleBuffer (outputs calls s) = None) \<and>
   (consoleBuffer s \<noteq> None \<longrightarrow> stdout (outputs calls s) = stdout s) \<and>
   join '' '' [a] = a \<and>
   join '' '' (a # b # rest) = a @ '' '' @ join '' '' (b # rest)"
proof -
  have one: "output_io now [] s = s \<and>
   (args \<noteq> [] \<longrightarrow> consoleBuffer s = None \<longrightarrow>
      stdout (output_io now args s) = stdout s @ [join '' '' args] \<and>
      consoleBuffer (output_io now args s) = None) \<and>
   (args \<noteq> [] \<longrightarrow> consoleBuffer s = Some entries \<longrightarrow>
      stdout (output_io now args s) = stdout s \<and>
      (\<exists>e. consoleBuffer (output_io now args s) = Some (entries @ [e]) \<and>
           message e = join '' '' args))"
    by (simp add: output_io_def Let_def)
  show ?thesis
    using one outputs_uncaptured [of s calls] outputs_captured_stdout [of s calls]
    by simp
qed

theorem output_io_events_witness:
  "output_io 7 [] initialIOState = initialIOState \<and>
   stdout (output_io 7 [''a'', ''b'', ''c''] initialIOState) = [''a b c''] \<and>
   stdout (output_io 7 [''a'', ''b'', ''c''] (enableConsoleCapture 5 initialIOState)) = [] \<and>
   (\<exists>e. consoleBuffer (output_io 7 [''a'', ''b'', ''c''] (enableConsoleCapture 5 initialIOState))
          = Some [e] \<and> message e = ''a b c'') \<and>
   stdout (outputs [(1, [''x'']), (2, []), (3, [''y'', ''z''])] initialIOState) = [''x'', ''y z'']"
  using output_io_events [of 7 initialIOState "[''a'', ''b'', ''c'']" "[]"
      "[(1, [''x'']), (2, []), (3, [''y'', ''z''])]"]
    output_io_events [of 7 "enableConsoleCapture 5 initialIOState" "[''a'', ''b'', ''c'']" "[]" "[]"]
  by (simp add: initialIOState_def enableConsoleCapture_def)

lemma outputs_buffer:
  "consoleBuffer s = Some entries \<Longrightarrow>
   consoleBuffer (outputs calls s) =
     Some (entries @ map (\<lambda>(now, args). \<lparr>timestamp_ms = now - captureStartTime s, message = join '' '' args\<rparr>)
                        (filter (\<lambda>(now, args). args \<noteq> []) calls))
   \<and> captureStartTime (outputs calls s) = captureStartTime s"
proof (induction calls arbitrary: s entries)
  case Nil
  then show ?case by simp
next
  case (Cons call calls)
  obtain now args where call: "call = (now, args)" by (cases call)
  show ?case
  proof (cases "args = []")
    case True
    then show ?thesis using Cons call by (simp add: output_io_def)
  next
    case False
    let ?s' = "output_io now args s"
    have b: "consoleBuffer ?s' = Some (entries @ [\<lparr>timestamp_ms = now - captureStartTime s, message = join '' '' args\<rparr>])"
      and t: "captureStartTime ?s' = captureStartTime s"
      using False Cons.prems by (simp_all add: output_io_def Let_def)
    show ?thesis
      using Cons.IH [OF b] False by (simp add: call t)
  qed
qed

lemma capturedRun_entries:
  "capturedRun start calls s =
     map (\<lambda>(now, args). \<lparr>timestamp_ms = now - start, message = join '' '' args\<rparr>)
       (filter (\<lambda>(now, args). args \<noteq> []) calls)"
proof -
  have "consoleBuffer (enableConsoleCapture start s) = Some []"
    and "captureStartTime (enableConsoleCapture start s) = start"
    by (simp_all add: enableConsoleCapture_def)
  then show ?thesis
    using outputs_buffer [of "enableConsoleCapture start s" "[]" calls]
    by (simp add: capturedRun_def disableConsoleCapture_def)
qed

text \<open>
  When console capture is enabled, the entries that \<^verbatim>\<open>disableConsoleCapture\<close> returns are
  the messages of the \<^verbatim>\<open>output\<close> calls with a non-empty argument list, in the order the
  calls were made, each stamped with the reading of \<^verbatim>\<open>Date.now()\<close> at its call minus the
  reading at the start of the capture.
\<close>

lemma capturedRun_messages_in_order:
  "map message (capturedRun start calls s)
     = map (join '' '') (filter (\<lambda>args. args \<noteq> []) (map snd calls)) \<and>
   map timestamp_ms (capturedRun start calls s)
     = map (\<lambda>(now, args). now - start) (filter (\<lambda>(now, args). args \<noteq> []) calls)"
proof -
  have m: "map message (capturedRun start calls s)
             = map (join '' '') (filter (\<lambda>args. args \<noteq> []) (map snd calls))"
    unfolding capturedRun_entries by (induction calls) auto
  have t: "map timestamp_ms (capturedRun start calls s)
             = map (\<lambda>(now, args). now - start) (filter (\<lambda>(now, args). args \<noteq> []) calls)"
    unfolding capturedRun_entries by (induction calls) auto
  show ?thesis using m t by blast
qed

text \<open>
  C7. The captured entries are to come in the order of the calls, with timestamps that
  are non-negative and never decrease. The order holds, but the timestamps are
  differences of wall-clock readings, which is not a monotonic clock: when
  \<^verbatim>\<open>Date.now()\<close> reads 100 at the start of the capture, 120 at \<^verbatim>\<open>output(["a"])\<close> and,
  the system clock having been set back, 50 at \<^verbatim>\<open>output(["b"])\<close>, the entries returned
  are stamped 20 and -50: the second timestamp is negative and smaller than the first.
\<close>

theorem capturedRun_clock_set_back:
  "capturedRun 100 [(120, [''a'']), (50, [''b''])] initialIOState
     = [\<lparr>timestamp_ms = 20, message = ''a''\<rparr>, \<lparr>timestamp_ms = - 50, message = ''b''\<rparr>]"
  by (simp add: capturedRun_def enableConsoleCapture_def disableConsoleCapture_def
      output_io_def initialIOState_def)

section \<open>Solution or script\<close>

lemma includes_str_sublist: "includes_str s pat = sublist pat s"
  by (induction s) (simp_all add: sublist_Cons_right)

text \<open>
  \<^verbatim>\<open>isSolutionSource\<close> reports \<open>hasPartOne\<close> iff the source text contains the substring
  \<^verbatim>\<open>part_one:\<close> and \<open>hasPartTwo\<close> iff it contains \<^verbatim>\<open>part_two:\<close>, wherever it stands.
\<close>

lemma isSolutionSource_sublist:
  "hasPartOne (isSolutionSource source) = sublist ''part_one:'' source \<and>
   hasPartTwo (isSolutionSource source) = sublist ''part_two:'' source"
  by (simp add: isSolutionSource_def includes_str_sublist)

text \<open>
  C5. The CLI is to classify a source as a solution iff its top-level statement list
  contains a section named \<^verbatim>\<open>part_one\<close> or \<^verbatim>\<open>part_two\<close>, and to treat any other source as
  a script. The source \<^verbatim>\<open>// part_one:\<close> is a single line comment; its top-level statement
  list is empty and declares no section, so the runner returns a script result, with
  some value \<open>v\<close> and duration \<open>d\<close>. Text mode and JSON mode then produce script output.
  JSONL mode, which decides from \<^verbatim>\<open>isSolutionSource\<close>, produces solution output instead:
  it writes a solution document with a pending first part, marks the document and the
  part running, and ends by marking the document complete; the part is never completed
  and the value \<open>v\<close> is never written.
\<close>

theorem comment_classified_as_solution:
  "topLevelSectionNames ''// part_one:'' = Some [] \<and>
   isSolutionSource ''// part_one:'' = \<lparr>hasPartOne = True, hasPartTwo = False\<rparr> \<and>
   runModeKind Text ''// part_one:'' (ScriptResult v d) = ScriptOutput \<and>
   runModeKind Json ''// part_one:'' (ScriptResult v d) = ScriptOutput \<and>
   runModeKind Jsonl ''// part_one:'' (ScriptResult v d) = SolutionOutput \<and>
   jsonlRunLines ''// part_one:'' (ScriptResult v d) [] =
     [InitialLine (JsonlSolutionInitial True False),
      PatchLine [Replace ''/status'' (JString ''running'')],
      PatchLine [Replace ''/part_one/status'' (JString ''running'')],
      PatchLine [Replace ''/status'' (JString ''complete'')]]"
proof -
  have src: "isSolutionSource ''// part_one:'' = \<lparr>hasPartOne = True, hasPartTwo = False\<rparr>"
    by (simp add: isSolutionSource_def)
  have sol: "isSolution ''// part_one:''"
    by (simp add: isSolution_def src)
  have ini: "jsonlRunInitial ''// part_one:'' = JsonlSolutionInitial True False"
    by (simp add: jsonlRunInitial_def sol src)
  have top: "topLevelSectionNames ''// part_one:'' = Some []"
    by (simp add: topLevelSectionNames_def isLineComment_def)
  have in_text: "runModeKind Text ''// part_one:'' (ScriptResult v d) = ScriptOutput"
    and in_json: "runModeKind Json ''// part_one:'' (ScriptResult v d) = ScriptOutput"
    by (simp_all add: runModeKind_def formatRunJson_def)
  have in_jsonl: "runModeKind Jsonl ''// part_one:'' (ScriptResult v d) = SolutionOutput"
    by (simp add: runModeKind_def ini)
  have lines: "jsonlRunLines ''// part_one:'' (ScriptResult v d) [] =
     [InitialLine (JsonlSolutionInitial True False),
      PatchLine [Replace ''/status'' (JString ''running'')],
      PatchLine [Replace ''/part_one/status'' (JString ''running'')],
      PatchLine [Replace ''/status'' (JString ''complete'')]]"
    by (simp add: jsonlRunLines_def jsonlRunBefore_def jsonlRunAfter_def sol src ini)
  show ?thesis
    using top src in_text in_json in_jsonl lines by blast
qed

section \<open>Reading puzzle input\<close>







section \<open>Slow and skipped tests\<close>

lemma runTest_flags:
  "slow (fst (runTest sol inc i sec)) = annotatedSlow sec"
  "skipped (fst (runTest sol inc i sec)) = (annotatedSlow sec \<and> \<not> inc)"
  by (simp_all add: runTest_def Let_def split: prod.splits)

lemma runTest_skipped_quiet:
  "skipped (fst (runTest sol inc i sec)) \<Longrightarrow>
   snd (runTest sol inc i sec) = [] \<and>
   partOne (fst (runTest sol inc i sec)) = None \<and> partTwo (fst (runTest sol inc i sec)) = None"
  by (simp add: runTest_def Let_def split: prod.splits if_splits)

lemma runTest_events:
  "e \<in> set (snd (runTest sol inc i sec)) \<Longrightarrow>
   evaluatedFor e = i \<and> \<not> skipped (fst (runTest sol inc i sec))"
  by (auto simp: runTest_def Let_def split: prod.splits if_splits)

lemma runTestsFrom_length: "length (fst (runTestsFrom sol inc i secs)) = length secs"
proof (induction secs arbitrary: i)
  case Nil
  show ?case by simp
next
  case (Cons sec secs)
  obtain tc evs where one: "runTest sol inc i sec = (tc, evs)"
    by (cases "runTest sol inc i sec")
  obtain tcs evs' where rest: "runTestsFrom sol inc (Suc i) secs = (tcs, evs')"
    by (cases "runTestsFrom sol inc (Suc i) secs")
  have "length tcs = length secs"
    using Cons.IH [of "Suc i"] by (simp add: rest)
  then show ?case by (simp add: one rest)
qed

lemma runTestsFrom_nth:
  "k < length secs \<Longrightarrow>
   fst (runTestsFrom sol inc i secs) ! k = fst (runTest sol inc (i + k) (secs ! k))"
proof (induction secs arbitrary: i k)
  case Nil
  then show ?case by simp
next
  case (Cons sec secs)
  obtain tc evs where one: "runTest sol inc i sec = (tc, evs)"
    by (cases "runTest sol inc i sec")
  obtain tcs evs' where rest: "runTestsFrom sol inc (Suc i) secs = (tcs, evs')"
    by (cases "runTestsFrom sol inc (Suc i) secs")
  show ?case
  proof (cases k)
    case 0
    then show ?thesis by (simp add: one rest)
  next
    case (Suc k')
    then have "k' < length secs" using Cons.prems by simp
    from Cons.IH [OF this, of "Suc i"] have "tcs ! k' = fst (runTest sol inc (Suc i + k') (secs ! k'))"
      by (simp add: rest)
    then show ?thesis by (simp add: Suc one rest)
  qed
qed

lemma runTestsFrom_events:
  "e \<in> set (snd (runTestsFrom sol inc i secs)) \<Longrightarrow>
   i \<le> evaluatedFor e \<and> evaluatedFor e < i + length secs \<and>
   \<not> skipped (fst (runTestsFrom sol inc i secs) ! (evaluatedFor e - i))"
proof (induction secs arbitrary: i)
  case Nil
  then show ?case by simp
next
  case (Cons sec secs)
  obtain tc evs where one: "runTest sol inc i sec = (tc, evs)"
    by (cases "runTest sol inc i sec")
  obtain tcs evs' where rest: "runTestsFrom sol inc (Suc i) secs = (tcs, evs')"
    by (cases "runTestsFrom sol inc (Suc i) secs")
  from Cons.prems have "e \<in> set evs \<or> e \<in> set evs'"
    by (simp add: one rest)
  then show ?case
  proof
    assume "e \<in> set evs"
    then have "evaluatedFor e = i \<and> \<not> skipped tc"
      using runTest_events [of e sol inc i sec] by (simp add: one)
    then show ?thesis by (simp add: one rest)
  next
    assume "e \<in> set evs'"
    then have "Suc i \<le> evaluatedFor e \<and> evaluatedFor e < Suc i + length secs \<and>
       \<not> skipped (tcs ! (evaluatedFor e - Suc i))"
      using Cons.IH [of "Suc i"] by (simp add: rest)
    moreover from this have "evaluatedFor e - i = Suc (evaluatedFor e - Suc i)" by arith
    ultimately show ?thesis by (simp add: one rest)
  qed
qed

lemma formatTestCases_skipped_nth:
  "k < length tcs \<Longrightarrow> skipped (tcs ! k) \<Longrightarrow>
   snd (formatTestCases h1 h2 c i tcs) ! k =
     \<lparr>index = i + k + 1, json_slow = slow (tcs ! k), status = Skipped,
      part_one = None, part_two = None\<rparr>"
proof (induction tcs arbitrary: c i k)
  case Nil
  then show ?case by simp
next
  case (Cons tc tcs)
  obtain c' j where one: "formatTestCase h1 h2 c i tc = (c', j)"
    by (cases "formatTestCase h1 h2 c i tc")
  obtain c'' js where rest: "formatTestCases h1 h2 c' (Suc i) tcs = (c'', js)"
    by (cases "formatTestCases h1 h2 c' (Suc i) tcs")
  show ?case
  proof (cases k)
    case 0
    then have "skipped tc" using Cons.prems by simp
    then have "j = \<lparr>index = i + 1, json_slow = slow tc, status = Skipped,
                    part_one = None, part_two = None\<rparr>"
      using one by (simp add: formatTestCase_def)
    then show ?thesis using 0 by (simp add: one rest)
  next
    case (Suc k')
    then have "k' < length tcs" "skipped (tcs ! k')" using Cons.prems by simp_all
    from Cons.IH [OF this, of c' "Suc i"]
    have "js ! k' = \<lparr>index = Suc i + k' + 1, json_slow = slow (tcs ! k'), status = Skipped,
                     part_one = None, part_two = None\<rparr>"
      by (simp add: rest)
    then show ?thesis by (simp add: Suc one rest)
  qed
qed

text \<open>
  C1. In test mode \<^verbatim>\<open>runTests\<close> returns one result per \<^verbatim>\<open>test\<close> section, in declaration
  order, skipped tests included. A result's \<open>slow\<close> flag is true iff the section was
  annotated \<^verbatim>\<open>@slow\<close>; its \<open>skipped\<close> flag is true iff the section is slow and the caller
  did not request slow tests. Every evaluation performed, of a test body or of a part of
  the solution, was performed for a test that is not skipped, so none is performed for a
  skipped test. In the JSON test output a skipped result appears with status
  \<^verbatim>\<open>skipped\<close>, its slow flag and no part results, as the result itself has none.
\<close>

theorem runTests_flags_and_skipping:
  "length (fst (runTests sol secs includeSlow)) = length secs \<and>
   map slow (fst (runTests sol secs includeSlow)) = map annotatedSlow secs \<and>
   map skipped (fst (runTests sol secs includeSlow))
     = map (\<lambda>sec. annotatedSlow sec \<and> \<not> includeSlow) secs \<and>
   (\<forall>e \<in> set (snd (runTests sol secs includeSlow)).
      evaluatedFor e < length secs \<and>
      \<not> skipped (fst (runTests sol secs includeSlow) ! evaluatedFor e)) \<and>
   (\<forall>k < length secs. skipped (fst (runTests sol secs includeSlow) ! k) \<longrightarrow>
      partOne (fst (runTests sol secs includeSlow) ! k) = None \<and>
      partTwo (fst (runTests sol secs includeSlow) ! k) = None \<and>
      tests (formatTestJson (fst (runTests sol secs includeSlow)) h1 h2 con) ! k
        = \<lparr>index = k + 1, json_slow = True, status = Skipped, part_one = None, part_two = None\<rparr>)"
proof -
  let ?R = "fst (runTests sol secs includeSlow)"
  have len: "length ?R = length secs"
    by (simp add: runTests_def runTestsFrom_length)
  have nth: "?R ! k = fst (runTest sol includeSlow k (secs ! k))" if "k < length secs" for k
    using that by (simp add: runTests_def runTestsFrom_nth)
  have sl: "map slow ?R = map annotatedSlow secs"
    by (rule nth_equalityI) (simp_all add: len nth runTest_flags)
  have sk: "map skipped ?R = map (\<lambda>sec. annotatedSlow sec \<and> \<not> includeSlow) secs"
    by (rule nth_equalityI) (simp_all add: len nth runTest_flags)
  have ev: "\<forall>e \<in> set (snd (runTests sol secs includeSlow)).
      evaluatedFor e < length secs \<and> \<not> skipped (?R ! evaluatedFor e)"
    using runTestsFrom_events [of _ sol includeSlow 0 secs] by (auto simp: runTests_def)
  have js: "tests (formatTestJson ?R h1 h2 con) ! k
        = \<lparr>index = k + 1, json_slow = True, status = Skipped, part_one = None, part_two = None\<rparr>"
    if "k < length secs" "skipped (?R ! k)" for k
  proof -
    have "skipped (?R ! k) = (annotatedSlow (secs ! k) \<and> \<not> includeSlow)"
      and "slow (?R ! k) = annotatedSlow (secs ! k)"
      using nth [OF that(1)] by (simp_all add: runTest_flags)
    then have "slow (?R ! k)" using that(2) by simp
    moreover have "tests (formatTestJson ?R h1 h2 con) = snd (formatTestCases h1 h2 zero_counters 0 ?R)"
      by (simp add: formatTestJson_def split: prod.splits)
    ultimately show ?thesis
      using formatTestCases_skipped_nth [of k ?R h1 h2 zero_counters 0] that by (simp add: len)
  qed
  have pn: "partOne (?R ! k) = None \<and> partTwo (?R ! k) = None"
    if "k < length secs" "skipped (?R ! k)" for k
    using that runTest_skipped_quiet [of sol includeSlow k "secs ! k"] by (simp add: nth)
  show ?thesis using len sl sk ev js pn by blast
qed

theorem runTests_flags_and_skipping_witness:
  "map slow (fst (runTests sampleSolution
       [\<lparr>annotatedSlow = False, testBody = ''''\<rparr>, \<lparr>annotatedSlow = True, testBody = ''''\<rparr>] False))
     = [False, True] \<and>
   map skipped (fst (runTests sampleSolution
       [\<lparr>annotatedSlow = False, testBody = ''''\<rparr>, \<lparr>annotatedSlow = True, testBody = ''''\<rparr>] False))
     = [False, True] \<and>
   snd (runTests sampleSolution
       [\<lparr>annotatedSlow = False, testBody = ''''\<rparr>, \<lparr>annotatedSlow = True, testBody = ''''\<rparr>] False)
     = [EvalTestBody 0, EvalPartOne 0] \<and>
   tests (formatTestJson (fst (runTests sampleSolution
       [\<lparr>annotatedSlow = False, testBody = ''''\<rparr>, \<lparr>annotatedSlow = True, testBody = ''''\<rparr>] False))
       True False []) ! 1
     = \<lparr>index = 2, json_slow = True, status = Skipped, part_one = None, part_two = None\<rparr>"
proof -
  let ?secs = "[\<lparr>annotatedSlow = False, testBody = ''''\<rparr>, \<lparr>annotatedSlow = True, testBody = ''''\<rparr>]"
  let ?R = "runTests sampleSolution ?secs False"
  note t = runTests_flags_and_skipping [of sampleSolution ?secs False True False "[]"]
  have sl: "map slow (fst ?R) = [False, True]" using t by simp
  have sk: "map skipped (fst ?R) = [False, True]" using t by simp
  then have "skipped (fst ?R ! 1)"
    by (metis One_nat_def length_Cons list.size(3) lessI nth_Cons_0 nth_Cons_Suc nth_map t)
  moreover have "(1::nat) < length ?secs" by simp
  ultimately have js: "tests (formatTestJson (fst ?R) True False []) ! 1
     = \<lparr>index = 1 + 1, json_slow = True, status = Skipped, part_one = None, part_two = None\<rparr>"
    using t by blast
  have ev: "snd ?R = [EvalTestBody 0, EvalPartOne 0]"
    by (simp add: runTests_def runTest_def sampleSolution_def comparePart_def)
  show ?thesis using sl sk ev js by simp
qed

section \<open>Tests without expectations\<close>

text \<open>
  C10. A test case that is not skipped and has neither a \<open>partOne\<close> nor a \<open>partTwo\<close>
  result has all its parts passed (an absent part counts as passing). Wherever it
  stands in the list of test cases, it adds one to the \<open>passed\<close> count of the JSON
  summary and nothing to the \<open>failed\<close> count, and it changes neither the \<open>success\<close>
  field nor the exit code of the run in any output mode. In text mode it prints its
  header and \<^verbatim>\<open>No expectations\<close> and leaves the exit code as it was.
\<close>

theorem no_expectations_counts_as_passed:
  assumes "partOne tc = None" and "partTwo tc = None" and "\<not> skipped tc"
  shows
    "allPassed tc \<and>
     sum_passed (summary (formatTestJson (xs @ tc # ys) h1 h2 con))
       = sum_passed (summary (formatTestJson (xs @ ys) h1 h2 con)) + 1 \<and>
     sum_failed (summary (formatTestJson (xs @ tc # ys) h1 h2 con))
       = sum_failed (summary (formatTestJson (xs @ ys) h1 h2 con)) \<and>
     success (formatTestJson (xs @ tc # ys) h1 h2 con)
       = success (formatTestJson (xs @ ys) h1 h2 con) \<and>
     testModeExit mode (Inr (xs @ tc # ys)) = testModeExit mode (Inr (xs @ ys)) \<and>
     textExitCode (textTestCase idx tc st) = textExitCode st \<and>
     printed (textTestCase idx tc st)
       = printed st @ (if idx > 0 then [Blank] else [])
           @ [Testcase (idx + 1) (if slow tc then MarkSlow else MarkNone), NoExpectations]"
proof -
  have ap: "allPassed tc"
    using assms by (simp add: allPassed_def partPassed_def)
  have hf: "hasFailures (xs @ tc # ys) = hasFailures (xs @ ys)"
    using assms by (simp add: hasFailures_def partFailed_def)
  have ex: "testModeExit mode (Inr (xs @ tc # ys)) = testModeExit mode (Inr (xs @ ys))"
    by (simp add: testModeExit_hasFailures hf)
  have tx: "textExitCode (textTestCase idx tc st) = textExitCode st"
    using assms by (simp add: textTestCase_exit partFailed_def)
  have pr: "printed (textTestCase idx tc st)
       = printed st @ (if idx > 0 then [Blank] else [])
           @ [Testcase (idx + 1) (if slow tc then MarkSlow else MarkNone), NoExpectations]"
    using assms by (simp add: textTestCase_def Let_def logLine_def)
  show ?thesis
    using ap assms(3) ex tx pr by (simp add: formatTestJson_counts)
qed

theorem no_expectations_counts_as_passed_witness:
  "sum_passed (summary (formatTestJson
      [\<lparr>partOne = None, partTwo = None, slow = False, skipped = False\<rparr>] True True [])) = 1 \<and>
   sum_failed (summary (formatTestJson
      [\<lparr>partOne = None, partTwo = None, slow = False, skipped = False\<rparr>] True True [])) = 0 \<and>
   success (formatTestJson
      [\<lparr>partOne = None, partTwo = None, slow = False, skipped = False\<rparr>] True True []) \<and>
   testModeExit Text (Inr [\<lparr>partOne = None, partTwo = None, slow = False, skipped = False\<rparr>]) = 0 \<and>
   printed (textTestCase 0 \<lparr>partOne = None, partTwo = None, slow = False, skipped = False\<rparr>
              \<lparr>printed = [], textExitCode = 0\<rparr>)
     = [Testcase 1 MarkNone, NoExpectations]"
proof -
  let ?tc = "\<lparr>partOne = None, partTwo = None, slow = False, skipped = False\<rparr>"
  have e: "sum_passed (summary (formatTestJson [] True True [])) = 0"
    "sum_failed (summary (formatTestJson [] True True [])) = 0"
    "success (formatTestJson [] True True [])"
    "testModeExit Text (Inr []) = 0"
    by (simp_all add: formatTestJson_def zero_counters_def testModeExit_def)
  show ?thesis
    using no_expectations_counts_as_passed
      [of ?tc "[]" "[]" True True "[]" Text 0 "\<lparr>printed = [], textExitCode = 0\<rparr>"] e
    by simp
qed

end
